theory Spec2Isabelle
  imports Complex_Main
begin

section \<open>Field values, model instances and exceptions\<close>

text \<open>
  The values a model field holds, as far as \<^verbatim>\<open>custom_validators.py\<close> tells them apart:
  \<^verbatim>\<open>None\<close>, booleans, integers and strings. Python's \<^verbatim>\<open>bool\<close> is a subclass of
  \<^verbatim>\<open>int\<close>, so a boolean is numeric. Float field values are outside the embedding.
\<close>

datatype pyval = PNone | PBool bool | PInt int | PStr string

text \<open>
  A model instance: its content type (\<^verbatim>\<open>"app_label.model_name"\<close>), its id, what
  \<^verbatim>\<open>str(instance)\<close> gives, and its attributes.
\<close>

record model_obj =
  obj_model :: string
  obj_id :: nat
  obj_str :: string
  attrs :: "(string \<times> pyval) list"

text \<open>
  The messages \<^verbatim>\<open>BaseValidator.clean\<close> builds. A generated message is an f-string; its
  constructor carries the interpolated values. \<open>Custom\<close> is the rule's own
  \<^verbatim>\<open>error_message\<close>.
\<close>

datatype rule_message =
    Custom string
  | RenderingError string
  | DoesNotConform string
  | MinMaxBlank "rat option" "rat option"
  | NotNumeric string
  | LessThanMinimum rat
  | MoreThanMaximum rat
  | CannotBeBlank
  | OnlyInstances nat

text \<open>
  What an \<^verbatim>\<open>AuditError\<close> (a django \<^verbatim>\<open>ValidationError\<close>) carries: a dict from
  attribute to messages, or a plain list of messages.
\<close>

datatype failure = Keyed "(string \<times> string list) list" | Unkeyed "string list"

text \<open>
  The exceptions of the model. \<^verbatim>\<open>self.validation_error({field: message})\<close> is
  nautobot's \<^verbatim>\<open>PluginCustomValidator.validation_error\<close>, which raises
  \<^verbatim>\<open>ValidationError\<close> on its argument: \<open>ValidationError field message\<close>. The
  code relies on the raise: after the call at line 66 the name
  \<^verbatim>\<open>regular_expression\<close> of line 76 is not bound. Logging is not modelled.
\<close>

datatype exc =
    ValidationError string rule_message
  | AuditError failure
  | AttributeError
  | TypeError
  | ReError
  | KeyError string
  | MultipleObjectsReturned
  | ImportFailure string
  | OtherException string

definition getattr :: "model_obj \<Rightarrow> string \<Rightarrow> exc + pyval" where
  "getattr obj name = (case map_of (attrs obj) name of None \<Rightarrow> Inl AttributeError | Some v \<Rightarrow> Inr v)"

text \<open>\<^verbatim>\<open>rule.error_message or <generated>\<close>: \<^verbatim>\<open>None\<close> and \<^verbatim>\<open>""\<close> are falsy.\<close>

definition message_or :: "string option \<Rightarrow> rule_message \<Rightarrow> rule_message" where
  "message_or error_message generated =
     (case error_message of
        None \<Rightarrow> generated
      | Some s \<Rightarrow> if s = [] then generated else Custom s)"

section \<open>The declarative rules\<close>

record regex_rule =
  rx_name :: string
  rx_field :: string
  rx_error_message :: "string option"
  regular_expression :: string
  context_processing :: bool

record minmax_rule =
  mm_name :: string
  mm_field :: string
  mm_error_message :: "string option"
  mm_min :: "rat option"
  mm_max :: "rat option"

record required_rule =
  rq_field :: string
  rq_error_message :: "string option"

record unique_rule =
  uq_field :: string
  uq_error_message :: "string option"
  max_instances :: nat

text \<open>
  The library functions the regex rules call, taken as parameters:
  \<^verbatim>\<open>render_jinja2\<close> (\<open>None\<close> when it raises), \<^verbatim>\<open>validate_regex\<close> (\<open>False\<close> when it
  raises) and \<^verbatim>\<open>re.compile\<close> (\<open>None\<close> when the pattern is refused with \<^verbatim>\<open>re.error\<close>;
  otherwise the predicate "the pattern matches at the start of the string").
\<close>

record regex_env =
  render_jinja2 :: "string \<Rightarrow> model_obj \<Rightarrow> string option"
  validate_regex :: "string \<Rightarrow> bool"
  re_compile :: "string \<Rightarrow> (string \<Rightarrow> bool) option"

text \<open>\<^verbatim>\<open>re.match(pattern, value)\<close>: compiles the pattern, then refuses a value that is no string.\<close>

definition re_match :: "regex_env \<Rightarrow> string \<Rightarrow> pyval \<Rightarrow> exc + bool" where
  "re_match env pattern v =
     (case re_compile env pattern of
        None \<Rightarrow> Inl ReError
      | Some m \<Rightarrow> (case v of PStr s \<Rightarrow> Inr (m s) | _ \<Rightarrow> Inl TypeError))"

text \<open>
  The body of the regex loop (lines 51 to 79) after \<^verbatim>\<open>getattr\<close>, on the field value read.
  \<open>None\<close>: the body ends without raising.
\<close>

definition regex_check :: "regex_env \<Rightarrow> model_obj \<Rightarrow> regex_rule \<Rightarrow> pyval \<Rightarrow> exc option" where
  "regex_check env obj rule v =
     (let field_value = (if v = PNone then PStr [] else v);
          rendering_error = ValidationError (rx_field rule) (RenderingError (rx_name rule));
          rendered =
            (if context_processing rule then
               (case render_jinja2 env (regular_expression rule) obj of
                  None \<Rightarrow> Inl rendering_error
                | Some r \<Rightarrow> if validate_regex env r then Inr r else Inl rendering_error)
             else Inr (regular_expression rule))
      in case rendered of
           Inl e \<Rightarrow> Some e
         | Inr r \<Rightarrow>
             (case re_match env r field_value of
                Inl e \<Rightarrow> Some e
              | Inr matched \<Rightarrow>
                  if \<not> matched
                  then Some (ValidationError (rx_field rule)
                               (message_or (rx_error_message rule) (DoesNotConform r)))
                  else None))"

definition regex_rule_clean :: "regex_env \<Rightarrow> model_obj \<Rightarrow> regex_rule \<Rightarrow> exc option" where
  "regex_rule_clean env obj rule =
     (case getattr obj (rx_field rule) of
        Inl e \<Rightarrow> Some e
      | Inr v \<Rightarrow> regex_check env obj rule v)"

text \<open>\<^verbatim>\<open>isinstance(field_value, (int, float))\<close>, with the number the value compares as.\<close>

fun numeric :: "pyval \<Rightarrow> rat option" where
  "numeric (PBool b) = Some (if b then 1 else 0)"
| "numeric (PInt i) = Some (of_int i)"
| "numeric PNone = None"
| "numeric (PStr s) = None"

text \<open>
  The \<^verbatim>\<open>if / elif / elif / elif\<close> chain of the min/max loop (lines 85 to 108): the message
  passed to \<^verbatim>\<open>validation_error\<close>, if a branch is taken.
\<close>

definition minmax_check :: "minmax_rule \<Rightarrow> pyval \<Rightarrow> rule_message option" where
  "minmax_check rule v =
     (if v = PNone then
        Some (message_or (mm_error_message rule) (MinMaxBlank (mm_min rule) (mm_max rule)))
      else
        (case numeric v of
           None \<Rightarrow> Some (NotNumeric (mm_name rule))
         | Some x \<Rightarrow>
             if mm_min rule \<noteq> None \<and> x < the (mm_min rule) then
               Some (message_or (mm_error_message rule) (LessThanMinimum (the (mm_min rule))))
             else if mm_max rule \<noteq> None \<and> x > the (mm_max rule) then
               Some (message_or (mm_error_message rule) (MoreThanMaximum (the (mm_max rule))))
             else None))"

definition minmax_rule_clean :: "model_obj \<Rightarrow> minmax_rule \<Rightarrow> exc option" where
  "minmax_rule_clean obj rule =
     (case getattr obj (mm_field rule) of
        Inl e \<Rightarrow> Some e
      | Inr v \<Rightarrow> map_option (ValidationError (mm_field rule)) (minmax_check rule v))"

text \<open>The required loop (lines 111 to 114).\<close>

definition required_check :: "required_rule \<Rightarrow> pyval \<Rightarrow> rule_message option" where
  "required_check rule v =
     (if v = PNone \<or> v = PStr [] then Some (message_or (rq_error_message rule) CannotBeBlank)
      else None)"

definition required_rule_clean :: "model_obj \<Rightarrow> required_rule \<Rightarrow> exc option" where
  "required_rule_clean obj rule =
     (case getattr obj (rq_field rule) of
        Inl e \<Rightarrow> Some e
      | Inr v \<Rightarrow> map_option (ValidationError (rq_field rule)) (required_check rule v))"

text \<open>
  The unique loop (lines 117 to 128). \<open>rows\<close> are the rows of the default manager of the
  instance's class; the instance's own row is one of them once it is saved.
  \<^verbatim>\<open>filter(**{field: value})\<close> is django's exact lookup of the value on the field,
  taken as a parameter: building it converts the value to the type of the field and
  raises when it cannot (\<open>Inl\<close>); otherwise it is the predicate the database evaluates
  on the stored value of each row (\<open>Inr\<close>), and \<^verbatim>\<open>count()\<close> counts the rows it holds of.
  A \<^verbatim>\<open>None\<close> value is not looked up (\<^verbatim>\<open>and\<close> does not evaluate its right side).
\<close>

definition filter_count :: "(pyval \<Rightarrow> bool) \<Rightarrow> model_obj list \<Rightarrow> string \<Rightarrow> nat" where
  "filter_count matches rows field =
     length (filter (\<lambda>r. case map_of (attrs r) field of None \<Rightarrow> False | Some x \<Rightarrow> matches x) rows)"

definition unique_check ::
  "(string \<Rightarrow> pyval \<Rightarrow> exc + (pyval \<Rightarrow> bool)) \<Rightarrow> model_obj list \<Rightarrow> unique_rule \<Rightarrow> pyval \<Rightarrow>
   exc option" where
  "unique_check exact rows rule v =
     (if v \<noteq> PNone then
        (case exact (uq_field rule) v of
           Inl e \<Rightarrow> Some e
         | Inr matches \<Rightarrow>
             if filter_count matches rows (uq_field rule) \<ge> max_instances rule
             then Some (ValidationError (uq_field rule)
                          (message_or (uq_error_message rule) (OnlyInstances (max_instances rule))))
             else None)
      else None)"

definition unique_rule_clean ::
  "(string \<Rightarrow> pyval \<Rightarrow> exc + (pyval \<Rightarrow> bool)) \<Rightarrow> model_obj list \<Rightarrow> model_obj \<Rightarrow> unique_rule \<Rightarrow>
   exc option" where
  "unique_rule_clean exact rows obj rule =
     (case getattr obj (uq_field rule) of
        Inl e \<Rightarrow> Some e
      | Inr v \<Rightarrow> unique_check exact rows rule v)"

text \<open>A \<^verbatim>\<open>for\<close> loop whose body may raise: the first exception ends it.\<close>

fun for_each :: "('a \<Rightarrow> exc option) \<Rightarrow> 'a list \<Rightarrow> exc option" where
  "for_each body [] = None"
| "for_each body (x # xs) = (case body x of Some e \<Rightarrow> Some e | None \<Rightarrow> for_each body xs)"

section \<open>The audit result ledger\<close>

text \<open>A row of \<^verbatim>\<open>AuditResult\<close>; the ledger is the table, a list of rows.\<close>

record audit_result_row =
  audit_class_name :: string
  content_type :: string
  object_id :: nat
  validated_attribute :: string
  last_validation_date :: nat
  validated_attribute_value :: "string option"
  message :: string
  valid :: bool

type_synonym ledger = "audit_result_row list"

definition row_key :: "audit_result_row \<Rightarrow> string \<times> string \<times> nat \<times> string" where
  "row_key r = (audit_class_name r, content_type r, object_id r, validated_attribute r)"

definition set_defaults ::
  "nat \<Rightarrow> string option \<Rightarrow> string \<Rightarrow> bool \<Rightarrow> audit_result_row \<Rightarrow> audit_result_row" where
  "set_defaults d v m b r =
     r\<lparr>last_validation_date := d, validated_attribute_value := v, message := m, valid := b\<rparr>"

definition new_row ::
  "string \<times> string \<times> nat \<times> string \<Rightarrow> nat \<Rightarrow> string option \<Rightarrow> string \<Rightarrow> bool \<Rightarrow>
   audit_result_row" where
  "new_row k d v m b =
     \<lparr>audit_class_name = fst k, content_type = fst (snd k), object_id = fst (snd (snd k)),
      validated_attribute = snd (snd (snd k)), last_validation_date = d,
      validated_attribute_value = v, message = m, valid = b\<rparr>"

text \<open>
  \<^verbatim>\<open>AuditResult.objects.update_or_create(<key>, defaults=...)\<close>: \<^verbatim>\<open>get\<close> by the key; no
  row creates one from the key and the defaults, one row is updated with the defaults,
  several rows raise \<^verbatim>\<open>MultipleObjectsReturned\<close>.
\<close>

definition update_or_create ::
  "string \<times> string \<times> nat \<times> string \<Rightarrow> nat \<Rightarrow> string option \<Rightarrow> string \<Rightarrow> bool \<Rightarrow>
   ledger \<Rightarrow> exc option \<times> ledger" where
  "update_or_create k d v m b l =
     (case filter (\<lambda>r. row_key r = k) l of
        [] \<Rightarrow> (None, l @ [new_row k d v m b])
      | [_] \<Rightarrow> (None, map (\<lambda>r. if row_key r = k then set_defaults d v m b r else r) l)
      | _ \<Rightarrow> (Some MultipleObjectsReturned, l))"

text \<open>Python's truth value and \<^verbatim>\<open>str\<close> of a field value.\<close>

fun truthy :: "pyval \<Rightarrow> bool" where
  "truthy PNone = False"
| "truthy (PBool b) = b"
| "truthy (PInt i) = (i \<noteq> 0)"
| "truthy (PStr s) = (s \<noteq> [])"

function str_nat :: "nat \<Rightarrow> string" where
  "str_nat n =
     (if n < 10 then [char_of (48 + n)] else str_nat (n div 10) @ [char_of (48 + n mod 10)])"
  by pat_completeness auto
termination
  by (relation "measure id") auto

declare str_nat.simps [simp del]

fun py_str :: "pyval \<Rightarrow> string" where
  "py_str PNone = ''None''"
| "py_str (PBool b) = (if b then ''True'' else ''False'')"
| "py_str (PInt i) = (if i < 0 then ''-'' @ str_nat (nat (- i)) else str_nat (nat i))"
| "py_str (PStr s) = s"

section \<open>Audit rulesets\<close>

text \<open>
  What \<^verbatim>\<open>self.audit()\<close> does on an instance: it returns, or it raises (an
  \<^verbatim>\<open>AuditError\<close> when the object fails the audit).
\<close>

datatype audit_outcome = Returns | Raises exc

text \<open>
  An \<^verbatim>\<open>AuditRuleset\<close> object: the attributes of its class and the
  \<^verbatim>\<open>timezone.now()\<close> that \<^verbatim>\<open>__init__\<close> reads when the class is instantiated for a run.
\<close>

record ruleset =
  class_name :: "string option"
  type_name :: string
  rs_model :: string
  enforce :: bool
  result_date :: nat
  audit :: "model_obj \<Rightarrow> audit_outcome"

text \<open>\<^verbatim>\<open>self.class_name or self.__class__.__name__\<close>\<close>

definition init_class_name :: "ruleset \<Rightarrow> string" where
  "init_class_name rs =
     (case class_name rs of
        None \<Rightarrow> type_name rs
      | Some s \<Rightarrow> if s = [] then type_name rs else s)"

text \<open>The attribute name that stands for the whole object.\<close>

definition whole_object :: string where
  "whole_object = ''all''"

text \<open>
  \<^verbatim>\<open>audit_result\<close> (lines 240 to 260). An attribute that is \<^verbatim>\<open>None\<close> or \<^verbatim>\<open>""\<close> is
  falsy and becomes \<^verbatim>\<open>"all"\<close>; otherwise \<^verbatim>\<open>getattr\<close> reads it from the instance.
  \<^verbatim>\<open>validated_save\<close> writes the row that \<^verbatim>\<open>update_or_create\<close> has written already.
\<close>

definition audit_result ::
  "ruleset \<Rightarrow> model_obj \<Rightarrow> string \<Rightarrow> string option \<Rightarrow> bool \<Rightarrow> ledger \<Rightarrow> exc option \<times> ledger" where
  "audit_result rs obj msg attribute vld l =
     (case (if attribute \<noteq> None \<and> attribute \<noteq> Some []
            then (case getattr obj (the attribute) of
                    Inl e \<Rightarrow> Inl e
                  | Inr v \<Rightarrow> Inr (v, the attribute))
            else Inr (PNone, whole_object)) of
        Inl e \<Rightarrow> (Some e, l)
      | Inr (attribute_value, a) \<Rightarrow>
          update_or_create (init_class_name rs, obj_model obj, obj_id obj, a)
            (result_date rs)
            (if truthy attribute_value then Some (py_str attribute_value) else None)
            msg vld l)"

text \<open>\<^verbatim>\<open>mark_existing_attributes_as_valid\<close> (lines 196 to 211): the query, then the loop.\<close>

definition existing_attributes :: "ruleset \<Rightarrow> model_obj \<Rightarrow> string list \<Rightarrow> ledger \<Rightarrow> string list" where
  "existing_attributes rs obj exclude_attributes l =
     map validated_attribute
       (filter (\<lambda>r. audit_class_name r = init_class_name rs \<and> content_type r = obj_model obj \<and>
                     object_id r = obj_id obj \<and>
                     validated_attribute r \<notin> set (whole_object # exclude_attributes)) l)"

fun mark_loop :: "ruleset \<Rightarrow> model_obj \<Rightarrow> string list \<Rightarrow> ledger \<Rightarrow> exc option \<times> ledger" where
  "mark_loop rs obj [] l = (None, l)"
| "mark_loop rs obj (a # as) l =
     (case audit_result rs obj (a @ '' is valid.'') (Some a) True l of
        (Some e, l') \<Rightarrow> (Some e, l')
      | (None, l') \<Rightarrow> mark_loop rs obj as l')"

definition mark_existing_attributes_as_valid ::
  "ruleset \<Rightarrow> model_obj \<Rightarrow> string list \<Rightarrow> ledger \<Rightarrow> exc option \<times> ledger" where
  "mark_existing_attributes_as_valid rs obj exclude_attributes l =
     mark_loop rs obj (existing_attributes rs obj exclude_attributes l) l"

text \<open>
  django's \<^verbatim>\<open>ValidationError.message_dict\<close> raises \<^verbatim>\<open>AttributeError\<close> on an error with
  no dict; \<^verbatim>\<open>messages\<close> is the list of all messages.
\<close>

definition message_dict :: "failure \<Rightarrow> exc + (string \<times> string list) list" where
  "message_dict ex = (case ex of Keyed d \<Rightarrow> Inr d | Unkeyed ms \<Rightarrow> Inl AttributeError)"

definition messages :: "failure \<Rightarrow> string list" where
  "messages ex = (case ex of Keyed d \<Rightarrow> concat (map snd d) | Unkeyed ms \<Rightarrow> ms)"

text \<open>\<^verbatim>\<open>for message in messages: self.audit_result(message=message, attribute=..., valid=False)\<close>\<close>

fun messages_loop ::
  "ruleset \<Rightarrow> model_obj \<Rightarrow> string option \<Rightarrow> string list \<Rightarrow> ledger \<Rightarrow> exc option \<times> ledger" where
  "messages_loop rs obj attribute [] l = (None, l)"
| "messages_loop rs obj attribute (m # ms) l =
     (case audit_result rs obj m attribute False l of
        (Some e, l') \<Rightarrow> (Some e, l')
      | (None, l') \<Rightarrow> messages_loop rs obj attribute ms l')"

text \<open>
  The loop over \<^verbatim>\<open>ex.message_dict.items()\<close> (lines 222 to 225), with
  \<^verbatim>\<open>exclude_attributes\<close> as it stands when the loop ends or raises.
\<close>

fun items_loop ::
  "ruleset \<Rightarrow> model_obj \<Rightarrow> (string \<times> string list) list \<Rightarrow> string list \<Rightarrow> ledger \<Rightarrow>
   exc option \<times> string list \<times> ledger" where
  "items_loop rs obj [] exclude_attributes l = (None, exclude_attributes, l)"
| "items_loop rs obj ((attribute, ms) # rest) exclude_attributes l =
     (case messages_loop rs obj (Some attribute) ms l of
        (Some e, l') \<Rightarrow> (Some e, exclude_attributes @ [attribute], l')
      | (None, l') \<Rightarrow> items_loop rs obj rest (exclude_attributes @ [attribute]) l')"

text \<open>
  The handler of \<^verbatim>\<open>AuditError\<close> (lines 220 to 231), clause by clause. The \<^verbatim>\<open>try\<close>
  body reads \<^verbatim>\<open>ex.message_dict\<close> and runs the loop over its items.
\<close>

definition try_items ::
  "ruleset \<Rightarrow> model_obj \<Rightarrow> failure \<Rightarrow> ledger \<Rightarrow> exc option \<times> string list \<times> ledger" where
  "try_items rs obj ex l =
     (case message_dict ex of
        Inl e \<Rightarrow> (Some e, [], l)
      | Inr d \<Rightarrow> items_loop rs obj d [] l)"

text \<open>
  \<^verbatim>\<open>except AttributeError\<close>: an \<^verbatim>\<open>AttributeError\<close> of the body is handled by the
  loop over \<^verbatim>\<open>ex.messages\<close>; any other outcome of the body is left as it is.
\<close>

definition except_attribute_error ::
  "ruleset \<Rightarrow> model_obj \<Rightarrow> failure \<Rightarrow> exc option \<Rightarrow> ledger \<Rightarrow> exc option \<times> ledger" where
  "except_attribute_error rs obj ex pending l =
     (if pending = Some AttributeError then messages_loop rs obj None (messages ex) l
      else (pending, l))"

text \<open>\<^verbatim>\<open>finally\<close>: the sweep with the attributes excluded so far, then the whole-object row.\<close>

definition finally_block ::
  "ruleset \<Rightarrow> model_obj \<Rightarrow> string list \<Rightarrow> ledger \<Rightarrow> exc option \<times> ledger" where
  "finally_block rs obj exclude_attributes l =
     (case mark_existing_attributes_as_valid rs obj exclude_attributes l of
        (Some e, l') \<Rightarrow> (Some e, l')
      | (None, l') \<Rightarrow> audit_result rs obj (obj_str obj @ '' is not valid'') None False l')"

text \<open>
  The three together: an exception of the \<^verbatim>\<open>finally\<close> block replaces the pending one,
  otherwise the pending one is raised again after it.
\<close>

definition record_failure :: "ruleset \<Rightarrow> model_obj \<Rightarrow> failure \<Rightarrow> ledger \<Rightarrow> exc option \<times> ledger" where
  "record_failure rs obj ex l =
     (case try_items rs obj ex l of
        (r1, exclude_attributes, l1) \<Rightarrow>
          (case except_attribute_error rs obj ex r1 l1 of
             (r2, l2) \<Rightarrow>
               (case finally_block rs obj exclude_attributes l2 of
                  (r3, l3) \<Rightarrow> if r3 \<noteq> None then (r3, l3) else (r2, l3))))"

text \<open>The \<^verbatim>\<open>try\<close> block of \<^verbatim>\<open>AuditRuleset.clean\<close> (lines 216 to 218).\<close>

definition audit_passed :: "ruleset \<Rightarrow> model_obj \<Rightarrow> ledger \<Rightarrow> exc option \<times> ledger" where
  "audit_passed rs obj l =
     (case audit rs obj of
        Raises e \<Rightarrow> (Some e, l)
      | Returns \<Rightarrow>
          (case mark_existing_attributes_as_valid rs obj [] l of
             (Some e, l') \<Rightarrow> (Some e, l')
           | (None, l') \<Rightarrow> audit_result rs obj (obj_str obj @ '' is valid'') None True l'))"

text \<open>\<^verbatim>\<open>AuditRuleset.clean\<close> (lines 213 to 233).\<close>

definition audit_ruleset_clean :: "ruleset \<Rightarrow> model_obj \<Rightarrow> ledger \<Rightarrow> exc option \<times> ledger" where
  "audit_ruleset_clean rs obj l =
     (case audit_passed rs obj l of
        (Some (AuditError ex), l1) \<Rightarrow>
          (case record_failure rs obj ex l1 of
             (Some e, l2) \<Rightarrow> (Some e, l2)
           | (None, l2) \<Rightarrow> (if enforce rs then Some (AuditError ex) else None, l2))
      | (r, l1) \<Rightarrow> (r, l1))"

section \<open>Discovery and dispatch\<close>

text \<open>
  A class of the registry \<^verbatim>\<open>registry["plugin_custom_validators"]\<close>: an audit ruleset
  (\<^verbatim>\<open>is_audit_rule_set\<close>) or another validator.
\<close>

datatype validator = AuditRulesetClass ruleset | OtherValidator string

text \<open>
  \<^verbatim>\<open>get_audit_rule_sets_map\<close> (lines 154 to 163), over the lists that
  \<^verbatim>\<open>registry["plugin_custom_validators"].values()\<close> gives.
\<close>

definition get_audit_rule_sets_map :: "validator list list \<Rightarrow> (string \<rightharpoonup> ruleset list)" where
  "get_audit_rule_sets_map registered =
     foldl (\<lambda>audit_rulesets v.
              case v of
                AuditRulesetClass rs \<Rightarrow>
                  audit_rulesets(rs_model rs \<mapsto>
                    (case audit_rulesets (rs_model rs) of None \<Rightarrow> [] | Some xs \<Rightarrow> xs) @ [rs])
              | OtherValidator _ \<Rightarrow> audit_rulesets)
       Map.empty (concat registered)"

text \<open>\<^verbatim>\<open>for audit_class in ...: audit_class(obj).clean()\<close> (lines 131 and 132)\<close>

fun registered_loop :: "ruleset list \<Rightarrow> model_obj \<Rightarrow> ledger \<Rightarrow> exc option \<times> ledger" where
  "registered_loop [] obj l = (None, l)"
| "registered_loop (audit_class # rest) obj l =
     (case audit_ruleset_clean audit_class obj l of
        (Some e, l') \<Rightarrow> (Some e, l')
      | (None, l') \<Rightarrow> registered_loop rest obj l')"

text \<open>
  A git repository that provides audit rulesets: \<^verbatim>\<open>import_python_file_from_git_repo\<close>
  raises, or gives a module, with or without the attribute \<^verbatim>\<open>custom_validators\<close>.
\<close>

datatype git_repository = ImportRaises exc | Module "ruleset list option"

text \<open>The loop over \<^verbatim>\<open>module.custom_validators\<close> (lines 139 to 146).\<close>

fun module_loop :: "ruleset list \<Rightarrow> model_obj \<Rightarrow> ledger \<Rightarrow> exc option \<times> ledger" where
  "module_loop [] obj l = (None, l)"
| "module_loop (audit_class # rest) obj l =
     (if obj_model obj \<noteq> rs_model audit_class then module_loop rest obj l
      else (case audit_ruleset_clean audit_class obj l of
              (Some e, l') \<Rightarrow> (Some e, l')
            | (None, l') \<Rightarrow> module_loop rest obj l'))"

fun repository_loop :: "git_repository list \<Rightarrow> model_obj \<Rightarrow> ledger \<Rightarrow> exc option \<times> ledger" where
  "repository_loop [] obj l = (None, l)"
| "repository_loop (ImportRaises e # rest) obj l = (Some e, l)"
| "repository_loop (Module None # rest) obj l = repository_loop rest obj l"
| "repository_loop (Module (Some classes) # rest) obj l =
     (case module_loop classes obj l of
        (Some e, l') \<Rightarrow> (Some e, l')
      | (None, l') \<Rightarrow> repository_loop rest obj l')"

text \<open>
  What one validation pass reads: the model of the validator class, the regex library,
  what \<^verbatim>\<open>get_for_model(self.model)\<close> gives for each rule kind, the rows of the default
  manager and its exact lookup, the registry and the git repositories that provide audit
  rulesets.
\<close>

record validation_env =
  self_model :: string
  regex_library :: regex_env
  regex_rules :: "regex_rule list"
  minmax_rules :: "minmax_rule list"
  required_rules :: "required_rule list"
  unique_rules :: "unique_rule list"
  default_manager :: "model_obj list"
  exact_lookup :: "string \<Rightarrow> pyval \<Rightarrow> exc + (pyval \<Rightarrow> bool)"
  plugin_custom_validators :: "validator list list"
  git_repositories :: "git_repository list"

text \<open>
  \<^verbatim>\<open>BaseValidator.clean\<close> (lines 45 to 146). The four rule loops write nothing; the
  rulesets write the ledger. An exception ends the pass where it is raised.
\<close>

definition declarative_rules :: "validation_env \<Rightarrow> model_obj \<Rightarrow> exc option" where
  "declarative_rules env obj =
     (case for_each (regex_rule_clean (regex_library env) obj) (regex_rules env) of
        Some e \<Rightarrow> Some e
      | None \<Rightarrow>
     (case for_each (minmax_rule_clean obj) (minmax_rules env) of
        Some e \<Rightarrow> Some e
      | None \<Rightarrow>
     (case for_each (required_rule_clean obj) (required_rules env) of
        Some e \<Rightarrow> Some e
      | None \<Rightarrow>
          for_each (unique_rule_clean (exact_lookup env) (default_manager env) obj)
            (unique_rules env))))"

definition base_validator_clean :: "validation_env \<Rightarrow> model_obj \<Rightarrow> ledger \<Rightarrow> exc option \<times> ledger" where
  "base_validator_clean env obj l =
     (case declarative_rules env obj of
        Some e \<Rightarrow> (Some e, l)
      | None \<Rightarrow>
          (case get_audit_rule_sets_map (plugin_custom_validators env) (self_model env) of
             None \<Rightarrow> (Some (KeyError (self_model env)), l)
           | Some classes \<Rightarrow>
               (case registered_loop classes obj l of
                  (Some e, l') \<Rightarrow> (Some e, l')
                | (None, l') \<Rightarrow> repository_loop (git_repositories env) obj l')))"

section \<open>Notions used to state the properties\<close>

text \<open>The row of the ledger with a key, if there is one (the first, if there are several).\<close>

definition lookup :: "ledger \<Rightarrow> string \<times> string \<times> nat \<times> string \<Rightarrow> audit_result_row option" where
  "lookup l k = find (\<lambda>r. row_key r = k) l"



text \<open>The key under which a ruleset records an attribute of an instance.\<close>

definition result_key :: "ruleset \<Rightarrow> model_obj \<Rightarrow> string \<Rightarrow> string \<times> string \<times> nat \<times> string" where
  "result_key rs obj a = (init_class_name rs, obj_model obj, obj_id obj, a)"

text \<open>The instance has the attribute: \<^verbatim>\<open>getattr\<close> does not raise.\<close>

definition has_attr :: "model_obj \<Rightarrow> string \<Rightarrow> bool" where
  "has_attr obj a = (map_of (attrs obj) a \<noteq> None)"

text \<open>What \<^verbatim>\<open>audit_result\<close> records as the value of an attribute of the instance.\<close>

definition recorded_value :: "model_obj \<Rightarrow> string \<Rightarrow> string option" where
  "recorded_value obj a =
     (case map_of (attrs obj) a of
        None \<Rightarrow> None
      | Some x \<Rightarrow> if truthy x then Some (py_str x) else None)"


text \<open>
  The second ledger has the rows of the first under their keys, in their order, then new
  keys; and with one row per key in the first, one row per key in the second.
\<close>

definition ledger_extends :: "ledger \<Rightarrow> ledger \<Rightarrow> bool" where
  "ledger_extends l l' =
     (take (length l) (map row_key l') = map row_key l \<and>
      (distinct (map row_key l) \<longrightarrow> distinct (map row_key l')))"

text \<open>A sequence of audit runs, each a ruleset object and the instance it audits.\<close>

fun audit_runs :: "(ruleset \<times> model_obj) list \<Rightarrow> ledger \<Rightarrow> ledger" where
  "audit_runs [] l = l"
| "audit_runs ((rs, obj) # runs) l = audit_runs runs (snd (audit_ruleset_clean rs obj l))"



section \<open>The ledger under upserts: lemmas\<close>

lemma row_key_set_defaults: "row_key (set_defaults d v m b r) = row_key r"
  by (simp add: row_key_def set_defaults_def)

lemma row_key_new_row: "row_key (new_row k d v m b) = k"
  by (simp add: row_key_def new_row_def)

lemma filter_key_empty: "(filter (\<lambda>r. row_key r = k) l = []) = (k \<notin> set (map row_key l))"
  by (auto simp: filter_empty_conv)

lemma map_key_update: "map row_key (map (\<lambda>r. if row_key r = k then set_defaults d v m b r else r) l) = map row_key l"
  by (induction l) (simp_all add: row_key_set_defaults)

lemma uoc_keys:
  "map row_key (snd (update_or_create k d v m b l)) =
     (if k \<in> set (map row_key l) then map row_key l else map row_key l @ [k])"
proof (cases "filter (\<lambda>r. row_key r = k) l")
  case Nil
  then have "k \<notin> set (map row_key l)" by (simp add: filter_key_empty)
  with Nil show ?thesis
    using row_key_new_row[of k d v m b] by (simp add: update_or_create_def)
next
  case (Cons r rs)
  then have "k \<in> set (map row_key l)" using filter_key_empty[of k l] by auto
  have "map row_key (snd (update_or_create k d v m b l)) = map row_key l"
  proof (cases rs)
    case Nil
    with Cons have "snd (update_or_create k d v m b l) =
        map (\<lambda>r. if row_key r = k then set_defaults d v m b r else r) l"
      by (simp add: update_or_create_def)
    then show ?thesis by (simp only: map_key_update)
  next
    case (Cons r' rs')
    with \<open>filter (\<lambda>r. row_key r = k) l = r # rs\<close> show ?thesis
      by (simp add: update_or_create_def)
  qed
  with \<open>k \<in> set (map row_key l)\<close> show ?thesis by simp
qed

lemma distinct_filter_key:
  "distinct (map row_key l) \<Longrightarrow> length (filter (\<lambda>r. row_key r = k) l) \<le> 1"
  by (induction l) (auto simp: filter_empty_conv image_iff)

lemma uoc_ok: 
  assumes "distinct (map row_key l)"
  shows "fst (update_or_create k d v m b l) = None"
proof (cases "filter (\<lambda>r. row_key r = k) l")
  case Nil
  then show ?thesis by (simp add: update_or_create_def)
next
  case (Cons r rs)
  with distinct_filter_key[OF assms, of k] have "rs = []" by simp
  with Cons show ?thesis by (simp add: update_or_create_def)
qed

lemma lookup_append: "lookup (l @ l') k = (case lookup l k of None \<Rightarrow> lookup l' k | Some r \<Rightarrow> Some r)"
  by (induction l) (simp_all add: lookup_def)

lemma lookup_single: "lookup [r] k = (if row_key r = k then Some r else None)"
  by (simp add: lookup_def)

lemma lookup_None: "(lookup l k = None) = (k \<notin> set (map row_key l))"
  by (auto simp: lookup_def find_None_iff)

lemma lookup_update:
  "lookup (map (\<lambda>r. if row_key r = k then set_defaults d v m b r else r) l) k' =
     (if k' = k then map_option (set_defaults d v m b) (lookup l k) else lookup l k')"
  by (induction l) (auto simp: lookup_def row_key_set_defaults)

lemma uoc_lookup:
  assumes "distinct (map row_key l)"
  shows "lookup (snd (update_or_create k d v m b l)) k' =
     (if k' = k then Some (case lookup l k of None \<Rightarrow> new_row k d v m b | Some r \<Rightarrow> set_defaults d v m b r)
      else lookup l k')"
proof (cases "filter (\<lambda>r. row_key r = k) l")
  case Nil
  then have n: "lookup l k = None" by (simp add: lookup_None filter_key_empty)
  from Nil have "snd (update_or_create k d v m b l) = l @ [new_row k d v m b]"
    by (simp add: update_or_create_def)
  then show ?thesis using n
    by (auto simp add: lookup_append lookup_single row_key_new_row split: option.splits)
next
  case (Cons r rs)
  with distinct_filter_key[OF assms, of k] have "rs = []" by simp
  with Cons have s: "snd (update_or_create k d v m b l) = map (\<lambda>r. if row_key r = k then set_defaults d v m b r else r) l"
    by (simp add: update_or_create_def)
  from Cons have "k \<in> set (map row_key l)" using filter_key_empty[of k l] by auto
  then obtain r0 where "lookup l k = Some r0" using lookup_None[of l k] by auto
  then show ?thesis by (simp add: s lookup_update)
qed

lemma set_defaults_new_row: "set_defaults d v m b r = new_row (row_key r) d v m b"
  by (simp add: set_defaults_def new_row_def row_key_def)

lemma uoc_lookup_same:
  assumes "distinct (map row_key l)"
  shows "lookup (snd (update_or_create k d v m b l)) k = Some (new_row k d v m b)"
proof (cases "lookup l k")
  case None
  then show ?thesis by (simp add: uoc_lookup[OF assms])
next
  case (Some r)
  then have "row_key r = k"
    by (auto simp: lookup_def dest: find_Some_iff[THEN iffD1])
  with Some show ?thesis by (simp add: uoc_lookup[OF assms] set_defaults_new_row)
qed

lemma uoc_lookup_other:
  assumes "distinct (map row_key l)" "k' \<noteq> k"
  shows "lookup (snd (update_or_create k d v m b l)) k' = lookup l k'"
  using assms by (simp add: uoc_lookup)


lemma ledger_extends_iff:
  "ledger_extends l l' =
     ((\<exists>ks. map row_key l' = map row_key l @ ks) \<and>
      (distinct (map row_key l) \<longrightarrow> distinct (map row_key l')))"
proof -
  have "(take (length l) (map row_key l') = map row_key l) = (\<exists>ks. map row_key l' = map row_key l @ ks)"
  proof
    assume t: "take (length l) (map row_key l') = map row_key l"
    have "map row_key l' = take (length l) (map row_key l') @ drop (length l) (map row_key l')"
      by simp
    with t show "\<exists>ks. map row_key l' = map row_key l @ ks" by metis
  next
    assume "\<exists>ks. map row_key l' = map row_key l @ ks"
    then obtain ks where "map row_key l' = map row_key l @ ks" ..
    then show "take (length l) (map row_key l') = map row_key l" by simp
  qed
  then show ?thesis by (simp add: ledger_extends_def)
qed

lemma ledger_extends_refl: "ledger_extends l l"
  by (simp add: ledger_extends_iff)

lemma ledger_extends_trans:
  "ledger_extends l l' \<Longrightarrow> ledger_extends l' l'' \<Longrightarrow> ledger_extends l l''"
  by (auto simp: ledger_extends_iff)

lemma uoc_extends: "ledger_extends l (snd (update_or_create k d v m b l))"
  by (simp add: ledger_extends_iff uoc_keys)

lemma audit_result_extends: "ledger_extends l (snd (audit_result rs obj msg attribute vld l))"
  by (auto simp: audit_result_def uoc_extends ledger_extends_refl split: sum.splits)

lemma mark_loop_extends: "ledger_extends l (snd (mark_loop rs obj as l))"
proof (induction as arbitrary: l)
  case Nil
  show ?case by (simp add: ledger_extends_refl)
next
  case (Cons a as)
  obtain r l1 where s: "audit_result rs obj (a @ '' is valid.'') (Some a) True l = (r, l1)"
    by (cases "audit_result rs obj (a @ '' is valid.'') (Some a) True l")
  then have e: "ledger_extends l l1"
    using audit_result_extends[of l rs obj "a @ '' is valid.''" "Some a" True] by simp
  show ?case
  proof (cases r)
    case None
    with s e Cons.IH[of l1] show ?thesis by (auto intro: ledger_extends_trans)
  next
    case (Some x)
    with s e show ?thesis by simp
  qed
qed

lemma messages_loop_extends: "ledger_extends l (snd (messages_loop rs obj attribute ms l))"
proof (induction ms arbitrary: l)
  case Nil
  show ?case by (simp add: ledger_extends_refl)
next
  case (Cons m ms)
  obtain r l1 where s: "audit_result rs obj m attribute False l = (r, l1)"
    by (cases "audit_result rs obj m attribute False l")
  then have e: "ledger_extends l l1"
    using audit_result_extends[of l rs obj m attribute False] by simp
  show ?case
  proof (cases r)
    case None
    with s e Cons.IH[of l1] show ?thesis by (auto intro: ledger_extends_trans)
  next
    case (Some x)
    with s e show ?thesis by simp
  qed
qed

lemma items_loop_extends: "ledger_extends l (snd (snd (items_loop rs obj d ex l)))"
proof (induction d arbitrary: l ex)
  case Nil
  show ?case by (simp add: ledger_extends_refl)
next
  case (Cons p d)
  obtain a ms where p: "p = (a, ms)" by (cases p)
  obtain r l1 where s: "messages_loop rs obj (Some a) ms l = (r, l1)"
    by (cases "messages_loop rs obj (Some a) ms l")
  then have e: "ledger_extends l l1"
    using messages_loop_extends[of l rs obj "Some a" ms] by simp
  show ?case
  proof (cases r)
    case None
    with p s e Cons.IH[of l1 "ex @ [a]"] show ?thesis by (auto intro: ledger_extends_trans)
  next
    case (Some x)
    with p s e show ?thesis by simp
  qed
qed

lemma mark_existing_extends:
  "ledger_extends l (snd (mark_existing_attributes_as_valid rs obj ex l))"
  by (simp add: mark_existing_attributes_as_valid_def mark_loop_extends)

lemma try_items_extends: "ledger_extends l (snd (snd (try_items rs obj ex l)))"
  by (simp add: try_items_def items_loop_extends ledger_extends_refl split: sum.splits)

lemma except_attribute_error_extends:
  "ledger_extends l (snd (except_attribute_error rs obj ex pending l))"
  by (simp add: except_attribute_error_def messages_loop_extends ledger_extends_refl)

lemma finally_block_extends: "ledger_extends l (snd (finally_block rs obj xs l))"
proof -
  obtain r l1 where s: "mark_existing_attributes_as_valid rs obj xs l = (r, l1)"
    by (cases "mark_existing_attributes_as_valid rs obj xs l")
  then have e: "ledger_extends l l1"
    using mark_existing_extends[of l rs obj xs] by simp
  show ?thesis
  proof (cases r)
    case None
    with s have "finally_block rs obj xs l = audit_result rs obj (obj_str obj @ '' is not valid'') None False l1"
      by (simp add: finally_block_def)
    with e show ?thesis
      using audit_result_extends[of l1 rs obj "obj_str obj @ '' is not valid''" None False]
      by (auto intro: ledger_extends_trans)
  next
    case (Some x)
    with s e show ?thesis by (simp add: finally_block_def)
  qed
qed

lemma record_failure_snd:
  "snd (record_failure rs obj ex l) =
     snd (finally_block rs obj (fst (snd (try_items rs obj ex l)))
            (snd (except_attribute_error rs obj ex (fst (try_items rs obj ex l))
                    (snd (snd (try_items rs obj ex l))))))"
  by (simp add: record_failure_def split: prod.splits)

lemma record_failure_extends: "ledger_extends l (snd (record_failure rs obj ex l))"
  unfolding record_failure_snd
  by (rule ledger_extends_trans[OF try_items_extends
        ledger_extends_trans[OF except_attribute_error_extends finally_block_extends]])

lemma audit_passed_extends: "ledger_extends l (snd (audit_passed rs obj l))"
proof (cases "audit rs obj")
  case Returns
  obtain r l1 where s: "mark_existing_attributes_as_valid rs obj [] l = (r, l1)"
    by (cases "mark_existing_attributes_as_valid rs obj [] l")
  then have e: "ledger_extends l l1"
    using mark_existing_extends[of l rs obj "[]"] by simp
  show ?thesis
  proof (cases r)
    case None
    with s Returns have "audit_passed rs obj l = audit_result rs obj (obj_str obj @ '' is valid'') None True l1"
      by (simp add: audit_passed_def)
    with e show ?thesis
      using audit_result_extends[of l1 rs obj "obj_str obj @ '' is valid''" None True]
      by (auto intro: ledger_extends_trans)
  next
    case (Some x)
    with s e Returns show ?thesis by (simp add: audit_passed_def)
  qed
next
  case (Raises e)
  then show ?thesis by (simp add: audit_passed_def ledger_extends_refl)
qed

lemma audit_ruleset_clean_snd:
  "snd (audit_ruleset_clean rs obj l) =
     (case fst (audit_passed rs obj l) of
        Some (AuditError ex) \<Rightarrow> snd (record_failure rs obj ex (snd (audit_passed rs obj l)))
      | _ \<Rightarrow> snd (audit_passed rs obj l))"
  by (simp add: audit_ruleset_clean_def split: prod.splits option.splits exc.splits)

lemma audit_ruleset_clean_extends: "ledger_extends l (snd (audit_ruleset_clean rs obj l))"
  unfolding audit_ruleset_clean_snd
  by (auto split: option.splits exc.splits
      intro: audit_passed_extends ledger_extends_trans[OF audit_passed_extends record_failure_extends])

lemma audit_runs_extends: "ledger_extends l (audit_runs runs l)"
proof (induction runs arbitrary: l)
  case Nil
  show ?case by (simp add: ledger_extends_refl)
next
  case (Cons p runs)
  obtain rs obj where p: "p = (rs, obj)" by (cases p)
  show ?case
    using Cons.IH[of "snd (audit_ruleset_clean rs obj l)"] audit_ruleset_clean_extends[of l rs obj]
    by (auto simp: p intro: ledger_extends_trans)
qed

lemma getattr_has_attr: "has_attr obj a \<Longrightarrow> \<exists>v. getattr obj a = Inr v"
  by (auto simp: has_attr_def getattr_def)

lemma getattr_no_attr: "\<not> has_attr obj a \<Longrightarrow> getattr obj a = Inl AttributeError"
  by (simp add: has_attr_def getattr_def)






lemma audit_result_whole:
  "audit_result rs obj msg None vld l =
     update_or_create (result_key rs obj whole_object) (result_date rs) None msg vld l"
  by (simp add: audit_result_def result_key_def)

lemma audit_result_empty:
  "audit_result rs obj msg (Some []) vld l =
     update_or_create (result_key rs obj whole_object) (result_date rs) None msg vld l"
  by (simp add: audit_result_def result_key_def)

lemma audit_result_attribute:
  assumes "a \<noteq> []" "has_attr obj a"
  shows "audit_result rs obj msg (Some a) vld l =
     update_or_create (result_key rs obj a) (result_date rs) (recorded_value obj a) msg vld l"
  using assms
  by (auto simp: audit_result_def result_key_def has_attr_def getattr_def recorded_value_def)

lemma audit_result_no_attribute:
  assumes "a \<noteq> []" "\<not> has_attr obj a"
  shows "audit_result rs obj msg (Some a) vld l = (Some AttributeError, l)"
  using assms getattr_no_attr[of obj a] by (simp add: audit_result_def)

lemma audit_result_cases:
  obtains (whole) "attribute = None \<or> attribute = Some []"
      "audit_result rs obj msg attribute vld l =
         update_or_create (result_key rs obj whole_object) (result_date rs) None msg vld l"
  | (attr) a where "attribute = Some a" "a \<noteq> []" "has_attr obj a"
      "audit_result rs obj msg attribute vld l =
         update_or_create (result_key rs obj a) (result_date rs) (recorded_value obj a) msg vld l"
  | (missing) a where "attribute = Some a" "a \<noteq> []" "\<not> has_attr obj a"
      "audit_result rs obj msg attribute vld l = (Some AttributeError, l)"
proof (cases attribute)
  case None
  then show ?thesis using whole audit_result_whole by simp
next
  case (Some a)
  show ?thesis
  proof (cases "a = []")
    case True
    with Some show ?thesis using whole audit_result_empty by simp
  next
    case False
    show ?thesis
    proof (cases "has_attr obj a")
      case True
      with Some False show ?thesis using attr audit_result_attribute by simp
    next
      case f: False
      with Some False show ?thesis using missing audit_result_no_attribute by simp
    qed
  qed
qed




lemma message_new_row: "message (new_row k d v m b) = m"
  by (simp add: new_row_def)








lemma row_key_result_key:
  "(row_key r = result_key rs obj (validated_attribute r)) =
     (audit_class_name r = init_class_name rs \<and> content_type r = obj_model obj \<and>
      object_id r = obj_id obj)"
  by (auto simp: row_key_def result_key_def)















































lemma audit_result_upsert:
  "audit_result rs obj msg attribute vld l =
     (if attribute = None \<or> attribute = Some [] then
        update_or_create (result_key rs obj whole_object) (result_date rs) None msg vld l
      else if has_attr obj (the attribute) then
        update_or_create (result_key rs obj (the attribute)) (result_date rs)
          (recorded_value obj (the attribute)) msg vld l
      else (Some AttributeError, l))"
  by (cases rule: audit_result_cases[of attribute rs obj msg vld l]) auto

lemma uoc_length:
  "length (snd (update_or_create k d v m b l)) =
     (if lookup l k = None then Suc (length l) else length l)"
proof -
  have "length (snd (update_or_create k d v m b l)) =
      length (map row_key (snd (update_or_create k d v m b l)))" by simp
  also have "\<dots> = (if k \<in> set (map row_key l) then length l else Suc (length l))"
    by (simp only: uoc_keys) simp
  finally show ?thesis by (simp add: lookup_None)
qed

lemma registered_loop_extends: "ledger_extends l (snd (registered_loop classes obj l))"
proof (induction classes arbitrary: l)
  case Nil
  show ?case by (simp add: ledger_extends_refl)
next
  case (Cons c classes)
  obtain r l1 where s: "audit_ruleset_clean c obj l = (r, l1)"
    by (cases "audit_ruleset_clean c obj l")
  then have e: "ledger_extends l l1" using audit_ruleset_clean_extends[of l c obj] by simp
  show ?case
  proof (cases r)
    case None
    with s e Cons.IH[of l1] show ?thesis by (auto intro: ledger_extends_trans)
  next
    case (Some x)
    with s e show ?thesis by simp
  qed
qed

lemma module_loop_extends: "ledger_extends l (snd (module_loop classes obj l))"
proof (induction classes arbitrary: l)
  case Nil
  show ?case by (simp add: ledger_extends_refl)
next
  case (Cons c classes)
  show ?case
  proof (cases "obj_model obj \<noteq> rs_model c")
    case True
    with Cons.IH[of l] show ?thesis by simp
  next
    case False
    obtain r l1 where s: "audit_ruleset_clean c obj l = (r, l1)"
      by (cases "audit_ruleset_clean c obj l")
    then have e: "ledger_extends l l1" using audit_ruleset_clean_extends[of l c obj] by simp
    show ?thesis
    proof (cases r)
      case None
      with False s e Cons.IH[of l1] show ?thesis by (auto intro: ledger_extends_trans)
    next
      case (Some x)
      with False s e show ?thesis by simp
    qed
  qed
qed

lemma repository_loop_extends: "ledger_extends l (snd (repository_loop repos obj l))"
proof (induction repos obj l rule: repository_loop.induct)
  case (1 obj l)
  show ?case by (simp add: ledger_extends_refl)
next
  case (2 e rest obj l)
  show ?case by (simp add: ledger_extends_refl)
next
  case (3 rest obj l)
  then show ?case by simp
next
  case (4 classes rest obj l)
  obtain r l1 where s: "module_loop classes obj l = (r, l1)"
    by (cases "module_loop classes obj l")
  then have e: "ledger_extends l l1" using module_loop_extends[of l classes obj] by simp
  show ?case
  proof (cases r)
    case None
    with s e "4.IH" s[symmetric] show ?thesis by (auto intro: ledger_extends_trans)
  next
    case (Some x)
    with s e show ?thesis by simp
  qed
qed

lemma base_validator_clean_extends: "ledger_extends l (snd (base_validator_clean env obj l))"
proof (cases "declarative_rules env obj")
  case (Some e)
  then show ?thesis by (simp add: base_validator_clean_def ledger_extends_refl)
next
  case None
  show ?thesis
  proof (cases "get_audit_rule_sets_map (plugin_custom_validators env) (self_model env)")
    case n: None
    with None show ?thesis by (simp add: base_validator_clean_def ledger_extends_refl)
  next
    case (Some classes)
    obtain r l1 where s: "registered_loop classes obj l = (r, l1)"
      by (cases "registered_loop classes obj l")
    then have e: "ledger_extends l l1" using registered_loop_extends[of l classes obj] by simp
    show ?thesis
    proof (cases r)
      case n: None
      with None Some s e repository_loop_extends[of l1 "git_repositories env" obj]
      show ?thesis by (auto simp: base_validator_clean_def intro: ledger_extends_trans)
    next
      case s2: (Some x)
      with None Some s e show ?thesis by (simp add: base_validator_clean_def)
    qed
  qed
qed













section \<open>The declarative rules: properties\<close>

text \<open>
  C1, as the code has it. For a min/max rule on a numeric, non-null field value the two
  checks are the branches of one \<^verbatim>\<open>elif\<close> chain: a violation is raised whenever min is
  configured and the value is below it; the maximum violation is raised whenever max is
  configured, the value is above it and the minimum branch was not taken; otherwise none.
  A value below min and above max gives the minimum violation alone.
\<close>

theorem minmax_chain:
  assumes "getattr obj (mm_field rule) = Inr v" and "numeric v = Some x"
  shows "minmax_rule_clean obj rule =
           (if mm_min rule \<noteq> None \<and> x < the (mm_min rule)
            then Some (ValidationError (mm_field rule)
                         (message_or (mm_error_message rule) (LessThanMinimum (the (mm_min rule)))))
            else if mm_max rule \<noteq> None \<and> the (mm_max rule) < x
            then Some (ValidationError (mm_field rule)
                         (message_or (mm_error_message rule) (MoreThanMaximum (the (mm_max rule)))))
            else None)"
  using assms by (cases v) (auto simp: minmax_rule_clean_def minmax_check_def)

theorem minmax_chain_witness:
  "minmax_rule_clean
     \<lparr>obj_model = ''dcim.rack'', obj_id = 1, obj_str = ''r1'', attrs = [(''count'', PInt 15)]\<rparr>
     \<lparr>mm_name = ''count range'', mm_field = ''count'', mm_error_message = None,
      mm_min = Some 1, mm_max = Some 10\<rparr>
   = Some (ValidationError ''count'' (MoreThanMaximum 10))"
proof -
  let ?obj = "\<lparr>obj_model = ''dcim.rack'', obj_id = 1, obj_str = ''r1'', attrs = [(''count'', PInt 15)]\<rparr>"
  let ?rule = "\<lparr>mm_name = ''count range'', mm_field = ''count'', mm_error_message = None,
      mm_min = Some 1, mm_max = Some 10\<rparr>"
  have 1: "getattr ?obj (mm_field ?rule) = Inr (PInt 15)"
    by (simp add: getattr_def)
  have 2: "numeric (PInt 15) = Some 15"
    by simp
  show ?thesis
    using minmax_chain[OF 1 2] by (simp add: message_or_def)
qed

text \<open>
  C1, as the claim states it, fails: with min 10 and max 3 the value 5 is below min and
  above max, and the rule gives one violation, the minimum one; the pass raises it alone.
\<close>

theorem minmax_two_violations_counterexample:
  "minmax_check
     \<lparr>mm_name = ''count range'', mm_field = ''count'', mm_error_message = None,
      mm_min = Some 10, mm_max = Some 3\<rparr> (PInt 5)
   = Some (LessThanMinimum 10)
   \<and> numeric (PInt 5) = Some 5 \<and> (5::rat) < 10 \<and> (3::rat) < 5
   \<and> base_validator_clean
       \<lparr>self_model = ''dcim.rack'',
        regex_library = \<lparr>render_jinja2 = (\<lambda>t obj. None), validate_regex = (\<lambda>p. True),
                          re_compile = (\<lambda>p. None)\<rparr>,
        regex_rules = [],
        minmax_rules = [\<lparr>mm_name = ''count range'', mm_field = ''count'', mm_error_message = None,
                         mm_min = Some 10, mm_max = Some 3\<rparr>],
        required_rules = [], unique_rules = [], default_manager = [],
        exact_lookup = (\<lambda>field v. Inr (\<lambda>x. x = v)),
        plugin_custom_validators = [], git_repositories = []\<rparr>
       \<lparr>obj_model = ''dcim.rack'', obj_id = 1, obj_str = ''r1'', attrs = [(''count'', PInt 5)]\<rparr>
       []
     = (Some (ValidationError ''count'' (LessThanMinimum 10)), [])"
  by (simp add: minmax_check_def message_or_def base_validator_clean_def declarative_rules_def
      minmax_rule_clean_def getattr_def)

text \<open>
  C5. A regex rule on a field whose value is \<^verbatim>\<open>None\<close> is applied to the empty string,
  as it is to a string value; with the pattern in use \<open>r\<close> (the rule's, or the rendered
  one) and \<open>m\<close> its match at the start of a string, the rule raises a violation exactly
  when \<open>m\<close> fails: with the rule's own message when it has a non-empty one, otherwise
  with the generated message that names \<open>r\<close>.
\<close>

theorem regex_rule_outcome:
  assumes "getattr obj (rx_field rule) = Inr v"
    and "v = PNone \<and> s = [] \<or> v = PStr s"
    and "if context_processing rule
         then render_jinja2 env (regular_expression rule) obj = Some r \<and> validate_regex env r
         else r = regular_expression rule"
    and "re_compile env r = Some m"
  shows "regex_rule_clean env obj rule =
           (if m s then None
            else Some (ValidationError (rx_field rule)
                         (case rx_error_message rule of
                            None \<Rightarrow> DoesNotConform r
                          | Some custom \<Rightarrow> if custom = [] then DoesNotConform r else Custom custom)))"
  using assms
  by (auto simp: regex_rule_clean_def regex_check_def re_match_def message_or_def Let_def
      split: if_splits option.splits)

theorem regex_rule_outcome_witness:
  "regex_rule_clean
     \<lparr>render_jinja2 = (\<lambda>t obj. None), validate_regex = (\<lambda>p. True),
      re_compile = (\<lambda>p. if p = ''^x'' then Some (\<lambda>s. take 1 s = ''x'') else None)\<rparr>
     \<lparr>obj_model = ''dcim.site'', obj_id = 1, obj_str = ''ams'', attrs = [(''name'', PNone)]\<rparr>
     \<lparr>rx_name = ''starts with x'', rx_field = ''name'',
      rx_error_message = Some ''Names start with x'',
      regular_expression = ''^x'', context_processing = False\<rparr>
   = Some (ValidationError ''name'' (Custom ''Names start with x''))
   \<and> regex_rule_clean
     \<lparr>render_jinja2 = (\<lambda>t obj. None), validate_regex = (\<lambda>p. True),
      re_compile = (\<lambda>p. if p = ''^x'' then Some (\<lambda>s. take 1 s = ''x'') else None)\<rparr>
     \<lparr>obj_model = ''dcim.site'', obj_id = 1, obj_str = ''ams'', attrs = [(''name'', PNone)]\<rparr>
     \<lparr>rx_name = ''starts with x'', rx_field = ''name'', rx_error_message = None,
      regular_expression = ''^x'', context_processing = False\<rparr>
   = Some (ValidationError ''name'' (DoesNotConform ''^x''))
   \<and> regex_rule_clean
     \<lparr>render_jinja2 = (\<lambda>t obj. Some (''^'' @ obj_str obj)), validate_regex = (\<lambda>p. True),
      re_compile = (\<lambda>p. if p = ''^ams'' then Some (\<lambda>s. take 3 s = ''ams'') else None)\<rparr>
     \<lparr>obj_model = ''dcim.site'', obj_id = 1, obj_str = ''ams'', attrs = [(''name'', PStr ''ams-1'')]\<rparr>
     \<lparr>rx_name = ''starts with own name'', rx_field = ''name'',
      rx_error_message = Some ''Names start with the site'',
      regular_expression = ''^{{ object }}'', context_processing = True\<rparr>
   = None"
proof -
  let ?env = "\<lparr>render_jinja2 = (\<lambda>t obj. None), validate_regex = (\<lambda>p. True),
      re_compile = (\<lambda>p. if p = ''^x'' then Some (\<lambda>s. take 1 s = ''x'') else None)\<rparr>"
  let ?env2 = "\<lparr>render_jinja2 = (\<lambda>t obj. Some (''^'' @ obj_str obj)), validate_regex = (\<lambda>p. True),
      re_compile = (\<lambda>p. if p = ''^ams'' then Some (\<lambda>s. take 3 s = ''ams'') else None)\<rparr>"
  let ?obj = "\<lparr>obj_model = ''dcim.site'', obj_id = 1, obj_str = ''ams'', attrs = [(''name'', PNone)]\<rparr>"
  let ?obj2 = "\<lparr>obj_model = ''dcim.site'', obj_id = 1, obj_str = ''ams'', attrs = [(''name'', PStr ''ams-1'')]\<rparr>"
  let ?custom = "\<lparr>rx_name = ''starts with x'', rx_field = ''name'',
      rx_error_message = Some ''Names start with x'',
      regular_expression = ''^x'', context_processing = False\<rparr>"
  let ?plain = "\<lparr>rx_name = ''starts with x'', rx_field = ''name'', rx_error_message = None,
      regular_expression = ''^x'', context_processing = False\<rparr>"
  let ?rendered = "\<lparr>rx_name = ''starts with own name'', rx_field = ''name'',
      rx_error_message = Some ''Names start with the site'',
      regular_expression = ''^{{ object }}'', context_processing = True\<rparr>"
  have g: "getattr ?obj (rx_field ?custom) = Inr PNone" "getattr ?obj (rx_field ?plain) = Inr PNone"
    by (simp_all add: getattr_def)
  have n: "PNone = PNone \<and> ([]::string) = [] \<or> PNone = PStr []" by simp
  have r1: "if context_processing ?custom
         then render_jinja2 ?env (regular_expression ?custom) ?obj = Some ''^x'' \<and> validate_regex ?env ''^x''
         else ''^x'' = regular_expression ?custom" by simp
  have r2: "if context_processing ?plain
         then render_jinja2 ?env (regular_expression ?plain) ?obj = Some ''^x'' \<and> validate_regex ?env ''^x''
         else ''^x'' = regular_expression ?plain" by simp
  have c: "re_compile ?env ''^x'' = Some (\<lambda>s. take 1 s = ''x'')" by simp
  have g3: "getattr ?obj2 (rx_field ?rendered) = Inr (PStr ''ams-1'')" by (simp add: getattr_def)
  have n3: "PStr ''ams-1'' = PNone \<and> ''ams-1'' = [] \<or> PStr ''ams-1'' = PStr ''ams-1''" by simp
  have r3: "if context_processing ?rendered
         then render_jinja2 ?env2 (regular_expression ?rendered) ?obj2 = Some ''^ams'' \<and>
              validate_regex ?env2 ''^ams''
         else ''^ams'' = regular_expression ?rendered" by simp
  have c3: "re_compile ?env2 ''^ams'' = Some (\<lambda>s. take 3 s = ''ams'')" by simp
  show ?thesis
    using regex_rule_outcome[OF g(1) n r1 c] regex_rule_outcome[OF g(2) n r2 c]
      regex_rule_outcome[OF g3 n3 r3 c3]
    by simp
qed

text \<open>
  C6. A required rule raises a violation exactly when the field value is \<^verbatim>\<open>None\<close> or the
  empty string; \<^verbatim>\<open>0\<close>, \<^verbatim>\<open>False\<close> and every non-empty string (so a string of spaces)
  raise none.
\<close>

theorem required_violation_iff:
  assumes "getattr obj (rq_field rule) = Inr v"
  shows "required_rule_clean obj rule =
           (if v = PNone \<or> v = PStr []
            then Some (ValidationError (rq_field rule)
                         (message_or (rq_error_message rule) CannotBeBlank))
            else None)
         \<and> (v = PInt 0 \<or> v = PBool False \<or> (\<exists>c s. v = PStr (c # s))
              \<longrightarrow> required_rule_clean obj rule = None)"
  using assms by (auto simp: required_rule_clean_def required_check_def)

theorem required_violation_iff_witness:
  "required_rule_clean \<lparr>obj_model = ''dcim.site'', obj_id = 1, obj_str = ''ams'',
       attrs = [(''name'', PStr ''''), (''asn'', PInt 0), (''active'', PBool False), (''comments'', PStr ''  '')]\<rparr>
     \<lparr>rq_field = ''name'', rq_error_message = None\<rparr> = Some (ValidationError ''name'' CannotBeBlank)
   \<and> required_rule_clean \<lparr>obj_model = ''dcim.site'', obj_id = 1, obj_str = ''ams'',
       attrs = [(''name'', PStr ''''), (''asn'', PInt 0), (''active'', PBool False), (''comments'', PStr ''  '')]\<rparr>
     \<lparr>rq_field = ''asn'', rq_error_message = None\<rparr> = None
   \<and> required_rule_clean \<lparr>obj_model = ''dcim.site'', obj_id = 1, obj_str = ''ams'',
       attrs = [(''name'', PStr ''''), (''asn'', PInt 0), (''active'', PBool False), (''comments'', PStr ''  '')]\<rparr>
     \<lparr>rq_field = ''comments'', rq_error_message = None\<rparr> = None"
proof -
  let ?obj = "\<lparr>obj_model = ''dcim.site'', obj_id = 1, obj_str = ''ams'',
       attrs = [(''name'', PStr ''''), (''asn'', PInt 0), (''active'', PBool False), (''comments'', PStr ''  '')]\<rparr>"
  have 1: "getattr ?obj (rq_field \<lparr>rq_field = ''name'', rq_error_message = None\<rparr>) = Inr (PStr '''')"
    by (simp add: getattr_def)
  have 2: "getattr ?obj (rq_field \<lparr>rq_field = ''asn'', rq_error_message = None\<rparr>) = Inr (PInt 0)"
    by (simp add: getattr_def)
  have 3: "getattr ?obj (rq_field \<lparr>rq_field = ''comments'', rq_error_message = None\<rparr>) = Inr (PStr ''  '')"
    by (simp add: getattr_def)
  show ?thesis
    using required_violation_iff[OF 1] required_violation_iff[OF 2] required_violation_iff[OF 3]
    by (simp add: message_or_def)
qed

text \<open>
  C7. A unique rule raises a violation exactly when the field value is not \<^verbatim>\<open>None\<close> and
  the rows of the instance's class whose field the exact lookup of the value matches are
  at least \<^verbatim>\<open>max_instances\<close>, with the rule's own message or the generated one. When
  the lookup compares the value as it is, these are the rows whose field is that value.
  A row that matches is counted whichever it is: the instance's own row is not left out.
\<close>

theorem unique_violation_iff:
  assumes "getattr obj (uq_field rule) = Inr v"
    and "v \<noteq> PNone \<longrightarrow> exact (uq_field rule) v = Inr matches"
  shows "unique_rule_clean exact rows obj rule =
           (if v \<noteq> PNone \<and>
               max_instances rule \<le>
                 length (filter (\<lambda>r. \<exists>x. map_of (attrs r) (uq_field rule) = Some x \<and> matches x) rows)
            then Some (ValidationError (uq_field rule)
                         (case uq_error_message rule of
                            None \<Rightarrow> OnlyInstances (max_instances rule)
                          | Some custom \<Rightarrow>
                              if custom = [] then OnlyInstances (max_instances rule)
                              else Custom custom))
            else None)
         \<and> (matches = (\<lambda>x. x = v) \<longrightarrow>
              length (filter (\<lambda>r. \<exists>x. map_of (attrs r) (uq_field rule) = Some x \<and> matches x) rows) =
              length (filter (\<lambda>r. map_of (attrs r) (uq_field rule) = Some v) rows))
         \<and> (map_of (attrs own) (uq_field rule) = Some x \<and> matches x \<longrightarrow>
              length (filter (\<lambda>r. \<exists>x. map_of (attrs r) (uq_field rule) = Some x \<and> matches x)
                        (before @ own # after)) =
              Suc (length (filter (\<lambda>r. \<exists>x. map_of (attrs r) (uq_field rule) = Some x \<and> matches x)
                             (before @ after))))"
proof -
  have p: "\<And>r. (case map_of (attrs r) (uq_field rule) of None \<Rightarrow> False | Some x \<Rightarrow> matches x) =
      (\<exists>x. map_of (attrs r) (uq_field rule) = Some x \<and> matches x)"
    by (simp split: option.splits)
  have 1: "unique_rule_clean exact rows obj rule =
           (if v \<noteq> PNone \<and>
               max_instances rule \<le>
                 length (filter (\<lambda>r. \<exists>x. map_of (attrs r) (uq_field rule) = Some x \<and> matches x) rows)
            then Some (ValidationError (uq_field rule)
                         (case uq_error_message rule of
                            None \<Rightarrow> OnlyInstances (max_instances rule)
                          | Some custom \<Rightarrow>
                              if custom = [] then OnlyInstances (max_instances rule)
                              else Custom custom))
            else None)"
    using assms
    by (simp add: unique_rule_clean_def unique_check_def filter_count_def message_or_def p)
  have 2: "matches = (\<lambda>x. x = v) \<longrightarrow>
              length (filter (\<lambda>r. \<exists>x. map_of (attrs r) (uq_field rule) = Some x \<and> matches x) rows) =
              length (filter (\<lambda>r. map_of (attrs r) (uq_field rule) = Some v) rows)"
    by auto
  have 3: "map_of (attrs own) (uq_field rule) = Some x \<and> matches x \<longrightarrow>
              length (filter (\<lambda>r. \<exists>x. map_of (attrs r) (uq_field rule) = Some x \<and> matches x)
                        (before @ own # after)) =
              Suc (length (filter (\<lambda>r. \<exists>x. map_of (attrs r) (uq_field rule) = Some x \<and> matches x)
                             (before @ after)))"
    by auto
  from 1 2 3 show ?thesis by blast
qed

theorem unique_violation_iff_witness:
  "unique_rule_clean
     (\<lambda>field v. Inr (\<lambda>x. x = (case v of PBool b \<Rightarrow> PInt (if b then 1 else 0) | _ \<Rightarrow> v)))
     [\<lparr>obj_model = ''dcim.site'', obj_id = 1, obj_str = ''a'', attrs = [(''code'', PStr ''X''), (''asn'', PInt 1)]\<rparr>,
      \<lparr>obj_model = ''dcim.site'', obj_id = 2, obj_str = ''b'', attrs = [(''code'', PStr ''Y''), (''asn'', PInt 7)]\<rparr>,
      \<lparr>obj_model = ''dcim.site'', obj_id = 3, obj_str = ''c'', attrs = [(''code'', PStr ''X''), (''asn'', PInt 9)]\<rparr>]
     \<lparr>obj_model = ''dcim.site'', obj_id = 3, obj_str = ''c'', attrs = [(''code'', PStr ''X''), (''asn'', PInt 9)]\<rparr>
     \<lparr>uq_field = ''code'', uq_error_message = Some ''Code taken'', max_instances = 2\<rparr>
   = Some (ValidationError ''code'' (Custom ''Code taken''))
   \<and> unique_rule_clean
     (\<lambda>field v. Inr (\<lambda>x. x = (case v of PBool b \<Rightarrow> PInt (if b then 1 else 0) | _ \<Rightarrow> v)))
     [\<lparr>obj_model = ''dcim.site'', obj_id = 1, obj_str = ''a'', attrs = [(''code'', PStr ''X''), (''asn'', PInt 1)]\<rparr>,
      \<lparr>obj_model = ''dcim.site'', obj_id = 2, obj_str = ''b'', attrs = [(''code'', PStr ''Y''), (''asn'', PInt 7)]\<rparr>,
      \<lparr>obj_model = ''dcim.site'', obj_id = 3, obj_str = ''c'', attrs = [(''code'', PStr ''X''), (''asn'', PInt 9)]\<rparr>]
     \<lparr>obj_model = ''dcim.site'', obj_id = 3, obj_str = ''c'', attrs = [(''code'', PStr ''X''), (''asn'', PInt 9)]\<rparr>
     \<lparr>uq_field = ''code'', uq_error_message = None, max_instances = 3\<rparr>
   = None
   \<and> unique_rule_clean
     (\<lambda>field v. Inr (\<lambda>x. x = (case v of PBool b \<Rightarrow> PInt (if b then 1 else 0) | _ \<Rightarrow> v)))
     [\<lparr>obj_model = ''dcim.site'', obj_id = 1, obj_str = ''a'', attrs = [(''code'', PStr ''X''), (''asn'', PInt 1)]\<rparr>,
      \<lparr>obj_model = ''dcim.site'', obj_id = 2, obj_str = ''b'', attrs = [(''code'', PStr ''Y''), (''asn'', PInt 7)]\<rparr>,
      \<lparr>obj_model = ''dcim.site'', obj_id = 3, obj_str = ''c'', attrs = [(''code'', PStr ''X''), (''asn'', PInt 9)]\<rparr>]
     \<lparr>obj_model = ''dcim.site'', obj_id = 4, obj_str = ''d'', attrs = [(''code'', PStr ''Z''), (''asn'', PBool True)]\<rparr>
     \<lparr>uq_field = ''asn'', uq_error_message = None, max_instances = 1\<rparr>
   = Some (ValidationError ''asn'' (OnlyInstances 1))"
proof -
  let ?exact = "\<lambda>field v. Inr (\<lambda>x. x = (case v of PBool b \<Rightarrow> PInt (if b then 1 else 0) | _ \<Rightarrow> v))
      :: exc + (pyval \<Rightarrow> bool)"
  let ?a = "\<lparr>obj_model = ''dcim.site'', obj_id = 1, obj_str = ''a'', attrs = [(''code'', PStr ''X''), (''asn'', PInt 1)]\<rparr>"
  let ?b = "\<lparr>obj_model = ''dcim.site'', obj_id = 2, obj_str = ''b'', attrs = [(''code'', PStr ''Y''), (''asn'', PInt 7)]\<rparr>"
  let ?c = "\<lparr>obj_model = ''dcim.site'', obj_id = 3, obj_str = ''c'', attrs = [(''code'', PStr ''X''), (''asn'', PInt 9)]\<rparr>"
  let ?d = "\<lparr>obj_model = ''dcim.site'', obj_id = 4, obj_str = ''d'', attrs = [(''code'', PStr ''Z''), (''asn'', PBool True)]\<rparr>"
  let ?two = "\<lparr>uq_field = ''code'', uq_error_message = Some ''Code taken'', max_instances = 2\<rparr>"
  let ?three = "\<lparr>uq_field = ''code'', uq_error_message = None, max_instances = 3\<rparr>"
  let ?asn = "\<lparr>uq_field = ''asn'', uq_error_message = None, max_instances = 1\<rparr>"
  have g1: "getattr ?c (uq_field ?two) = Inr (PStr ''X'')" by (simp add: getattr_def)
  have e1: "PStr ''X'' \<noteq> PNone \<longrightarrow> ?exact (uq_field ?two) (PStr ''X'') = Inr (\<lambda>x. x = PStr ''X'')"
    by simp
  have g2: "getattr ?c (uq_field ?three) = Inr (PStr ''X'')" by (simp add: getattr_def)
  have e2: "PStr ''X'' \<noteq> PNone \<longrightarrow> ?exact (uq_field ?three) (PStr ''X'') = Inr (\<lambda>x. x = PStr ''X'')"
    by simp
  have g3: "getattr ?d (uq_field ?asn) = Inr (PBool True)" by (simp add: getattr_def)
  have e3: "PBool True \<noteq> PNone \<longrightarrow> ?exact (uq_field ?asn) (PBool True) = Inr (\<lambda>x. x = PInt 1)"
    by simp
  show ?thesis
    using unique_violation_iff[where exact = ?exact and matches = "\<lambda>x. x = PStr ''X''"
          and rows = "[?a, ?b, ?c]", OF g1 e1, THEN conjunct1]
      unique_violation_iff[where exact = ?exact and matches = "\<lambda>x. x = PStr ''X''"
          and rows = "[?a, ?b, ?c]", OF g2 e2, THEN conjunct1]
      unique_violation_iff[where exact = ?exact and matches = "\<lambda>x. x = PInt 1"
          and rows = "[?a, ?b, ?c]", OF g3 e3, THEN conjunct1]
    by simp
qed

section \<open>Audit rulesets: properties\<close>

text \<open>
  C8. An exception of the audit logic that is no \<^verbatim>\<open>AuditError\<close> leaves
  \<^verbatim>\<open>AuditRuleset.clean\<close> as it was raised, with the ledger as it was: no sweep, no
  whole-object row; the loop over the rulesets of the pass passes it on.
\<close>

theorem unexpected_exception_propagates:
  assumes "audit rs obj = Raises e" and "\<forall>ex. e \<noteq> AuditError ex"
  shows "audit_ruleset_clean rs obj l = (Some e, l)
         \<and> registered_loop (rs # rest) obj l = (Some e, l)"
  using assms by (cases e) (simp_all add: audit_ruleset_clean_def audit_passed_def)

theorem unexpected_exception_propagates_witness:
  "audit_ruleset_clean
     \<lparr>class_name = None, type_name = ''SiteAudit'', rs_model = ''dcim.site'', enforce = False,
      result_date = 7, audit = (\<lambda>obj. Raises (OtherException ''boom''))\<rparr>
     \<lparr>obj_model = ''dcim.site'', obj_id = 1, obj_str = ''ams'', attrs = []\<rparr> []
   = (Some (OtherException ''boom''), [])"
proof -
  let ?rs = "\<lparr>class_name = None, type_name = ''SiteAudit'', rs_model = ''dcim.site'', enforce = False,
      result_date = 7, audit = (\<lambda>obj. Raises (OtherException ''boom''))\<rparr>"
  let ?obj = "\<lparr>obj_model = ''dcim.site'', obj_id = 1, obj_str = ''ams'', attrs = []\<rparr>"
  have 1: "audit ?rs ?obj = Raises (OtherException ''boom'')" by simp
  have 2: "\<forall>ex. OtherException ''boom'' \<noteq> AuditError ex" by simp
  show ?thesis
    using unexpected_exception_propagates[OF 1 2, of "[]" "[]"] by simp
qed





text \<open>
  C9. One row per key. From a ledger with one row per key, any sequence of audit runs
  (and any validation pass) leaves one row per key and keeps every key in its place:
  no row is deleted. Every write of \<^verbatim>\<open>audit_result\<close> is one \<^verbatim>\<open>update_or_create\<close>, which
  never fails there, leaves the row of the key with the new date, value, message and
  valid flag, leaves the rows of other keys as they were, and adds a row only for a key
  the ledger did not have.
\<close>

theorem ledger_one_row_per_key:
  assumes "distinct (map row_key l)"
  shows "distinct (map row_key (audit_runs runs l))
       \<and> take (length l) (map row_key (audit_runs runs l)) = map row_key l
       \<and> ledger_extends l (snd (base_validator_clean env obj l))
       \<and> audit_result rs obj msg attribute vld l =
           (if attribute = None \<or> attribute = Some [] then
              update_or_create (result_key rs obj whole_object) (result_date rs) None msg vld l
            else if has_attr obj (the attribute) then
              update_or_create (result_key rs obj (the attribute)) (result_date rs)
                (recorded_value obj (the attribute)) msg vld l
            else (Some AttributeError, l))
       \<and> fst (update_or_create k d v m b l) = None
       \<and> lookup (snd (update_or_create k d v m b l)) k = Some (new_row k d v m b)
       \<and> (k' \<noteq> k \<longrightarrow> lookup (snd (update_or_create k d v m b l)) k' = lookup l k')
       \<and> length (snd (update_or_create k d v m b l)) =
           (if lookup l k = None then Suc (length l) else length l)"
proof -
  from audit_runs_extends[of l runs] assms
  have 1: "distinct (map row_key (audit_runs runs l))"
    and 2: "take (length l) (map row_key (audit_runs runs l)) = map row_key l"
    by (simp_all add: ledger_extends_def)
  show ?thesis
    using 1 2 base_validator_clean_extends[of l env obj]
      audit_result_upsert[of rs obj msg attribute vld l]
      uoc_ok[OF assms, of k d v m b] uoc_lookup_same[OF assms, of k d v m b]
      uoc_lookup_other[OF assms, of k' k d v m b] uoc_length[of k d v m b l]
    by blast
qed

theorem ledger_one_row_per_key_witness:
  "distinct (map row_key (audit_runs
      [(\<lparr>class_name = None, type_name = ''StatusAudit'', rs_model = ''dcim.device'',
         enforce = False, result_date = 3, audit = (\<lambda>obj. Returns)\<rparr>,
        \<lparr>obj_model = ''dcim.device'', obj_id = 1, obj_str = ''sw1'',
         attrs = [(''status'', PStr ''up'')]\<rparr>)]
      [\<lparr>audit_class_name = ''StatusAudit'', content_type = ''dcim.device'', object_id = 1,
        validated_attribute = ''status'', last_validation_date = 2,
        validated_attribute_value = Some ''down'', message = ''invalid state'', valid = False\<rparr>]))
   \<and> lookup
       (snd (update_or_create (''StatusAudit'', ''dcim.device'', 1, ''status'') 3 (Some ''up'')
               ''status is valid.'' True
          [\<lparr>audit_class_name = ''StatusAudit'', content_type = ''dcim.device'', object_id = 1,
            validated_attribute = ''status'', last_validation_date = 2,
            validated_attribute_value = Some ''down'', message = ''invalid state'', valid = False\<rparr>]))
       (''StatusAudit'', ''dcim.device'', 1, ''status'')
     = Some (new_row (''StatusAudit'', ''dcim.device'', 1, ''status'') 3 (Some ''up'')
               ''status is valid.'' True)
   \<and> length
       (snd (update_or_create (''StatusAudit'', ''dcim.device'', 1, ''status'') 3 (Some ''up'')
               ''status is valid.'' True
          [\<lparr>audit_class_name = ''StatusAudit'', content_type = ''dcim.device'', object_id = 1,
            validated_attribute = ''status'', last_validation_date = 2,
            validated_attribute_value = Some ''down'', message = ''invalid state'', valid = False\<rparr>]))
     = 1"
proof -
  let ?l = "[\<lparr>audit_class_name = ''StatusAudit'', content_type = ''dcim.device'', object_id = 1,
        validated_attribute = ''status'', last_validation_date = 2,
        validated_attribute_value = Some ''down'', message = ''invalid state'', valid = False\<rparr>]"
  let ?k = "(''StatusAudit'', ''dcim.device'', 1::nat, ''status'')"
  have h: "distinct (map row_key ?l)" by simp
  have n: "lookup ?l ?k \<noteq> None" by code_simp
  from ledger_one_row_per_key[OF h, where k = ?k and d = 3 and v = "Some ''up''"
      and m = "''status is valid.''" and b = True
      and runs = "[(\<lparr>class_name = None, type_name = ''StatusAudit'', rs_model = ''dcim.device'',
         enforce = False, result_date = 3, audit = (\<lambda>obj. Returns)\<rparr>,
        \<lparr>obj_model = ''dcim.device'', obj_id = 1, obj_str = ''sw1'',
         attrs = [(''status'', PStr ''up'')]\<rparr>)]"]
  show ?thesis using n by simp
qed



section \<open>The validation pass: properties\<close>




end
